theory Spec2Isabelle
  imports Complex_Main
begin

section \<open>Outcomes of a call\<close>

text \<open>
  A member function of \<open>PcaModel\<close> either returns, throws, or leaves the behaviour of the
  program undefined. The three ways of not returning are kept apart:
  \<^item> \<open>Out_Of_Range\<close>: the \<open>std::out_of_range\<close> thrown by \<open>getMeanAtPoint\<close>;
  \<^item> \<open>Cv_Exception\<close>: a \<open>cv::Exception\<close> raised by a failed \<open>CV_Assert\<close> inside an OpenCV
    primitive (mismatching shapes in a product or a sum, a row range outside the matrix);
  \<^item> \<open>Undefined_Behaviour\<close>: signed overflow of an \<open>int\<close>, or an element access outside
    the buffer (\<open>Mat::at\<close> checks its index in debug builds only).
\<close>

datatype failure = Out_Of_Range | Cv_Exception | Undefined_Behaviour

definition seq :: "failure + 'b \<Rightarrow> ('b \<Rightarrow> failure + 'c) \<Rightarrow> failure + 'c" where
  "seq r f = (case r of Inl e \<Rightarrow> Inl e | Inr v \<Rightarrow> f v)"

definition INT_MAX :: int where
  "INT_MAX = 2147483647"

definition INT_MIN :: int where
  "INT_MIN = - 2147483648"

definition cint :: "int \<Rightarrow> failure + int" where
  \<comment> \<open>the value of an arithmetic expression of type \<open>int\<close> (32 bits)\<close>
  "cint x = (if INT_MIN \<le> x \<and> x \<le> INT_MAX then Inr x else Inl Undefined_Behaviour)"


section \<open>Dense matrices\<close>

text \<open>
  A \<open>cv::Mat\<close> of element type \<open>CV_32FC1\<close> (the only type the source reads, through
  \<open>at<float>\<close>): the row and column counts and the elements in row-major order. The
  element type \<open>'a\<close> stands for \<open>float\<close>; its arithmetic is whatever \<open>+\<close>, \<open>*\<close>, \<open>/\<close>,
  \<open>0\<close> and \<open>1\<close> are on \<open>'a\<close>, and no law of arithmetic is assumed of them.
\<close>

record 'a Mat =
  rows :: nat
  cols :: nat
  data :: "'a list"

definition wf_Mat :: "'a Mat \<Rightarrow> bool" where
  "wf_Mat m \<longleftrightarrow> length (data m) = rows m * cols m
               \<and> int (rows m) \<le> INT_MAX \<and> int (cols m) \<le> INT_MAX"

definition Mat_create :: "nat \<Rightarrow> nat \<Rightarrow> 'a Mat" where
  \<comment> \<open>\<open>Mat(size, type)\<close>: storage is allocated and not initialised\<close>
  "Mat_create r c = \<lparr>rows = r, cols = c, data = replicate (r * c) undefined\<rparr>"

definition clone :: "'a Mat \<Rightarrow> 'a Mat" where
  "clone m = m"

definition Mat_of_vector :: "'a list \<Rightarrow> 'a Mat" where
  \<comment> \<open>\<open>Mat(const std::vector<float>&)\<close>: a column vector with one row for each element\<close>
  "Mat_of_vector xs = \<lparr>rows = length xs, cols = 1, data = xs\<rparr>"

definition at1 :: "'a Mat \<Rightarrow> int \<Rightarrow> failure + 'a" where
  \<comment> \<open>\<open>m.at<float>(i)\<close>: element \<open>i\<close> in row-major order, unchecked\<close>
  "at1 m i = (if 0 \<le> i \<and> i < int (length (data m)) then Inr (data m ! nat i)
              else Inl Undefined_Behaviour)"

definition at2 :: "'a Mat \<Rightarrow> nat \<Rightarrow> nat \<Rightarrow> 'a" where
  \<comment> \<open>the element in row \<open>i\<close>, column \<open>j\<close>\<close>
  "at2 m i j = data m ! (i * cols m + j)"

definition col :: "'a Mat \<Rightarrow> nat \<Rightarrow> 'a list" where
  \<comment> \<open>\<open>m.col(j)\<close>, read from top to bottom\<close>
  "col m j = map (\<lambda>i. data m ! (i * cols m + j)) [0..<rows m]"

definition mul :: "'a::times list \<Rightarrow> 'a \<Rightarrow> 'a list" where
  \<comment> \<open>\<open>column.mul(s)\<close> with a scalar: every element times \<open>s\<close>\<close>
  "mul xs s = map (\<lambda>x. x * s) xs"

definition copyTo_col :: "'a list \<Rightarrow> 'a Mat \<Rightarrow> nat \<Rightarrow> 'a Mat" where
  \<comment> \<open>\<open>xs.copyTo(m.col(j))\<close>: column \<open>j\<close> of \<open>m\<close> is overwritten, the rest is kept\<close>
  "copyTo_col xs m j =
     m\<lparr>data := map (\<lambda>k. if k mod cols m = j then xs ! (k div cols m) else data m ! k)
                    [0..<length (data m)]\<rparr>"

definition rowRange :: "'a Mat \<Rightarrow> int \<Rightarrow> int \<Rightarrow> failure + 'a Mat" where
  \<comment> \<open>\<open>m.rowRange(a, b)\<close>: rows \<open>a\<close> to \<open>b - 1\<close>; OpenCV asserts \<open>0 <= a <= b <= m.rows\<close>\<close>
  "rowRange m a b =
     (if 0 \<le> a \<and> a \<le> b \<and> b \<le> int (rows m)
      then Inr \<lparr>rows = nat (b - a), cols = cols m,
                data = take (nat (b - a) * cols m) (drop (nat a * cols m) (data m))\<rparr>
      else Inl Cv_Exception)"

definition dot :: "'a::{zero,plus,times} list \<Rightarrow> 'a list \<Rightarrow> 'a" where
  "dot xs ys = foldl (+) 0 (map2 (*) xs ys)"

definition row :: "'a Mat \<Rightarrow> nat \<Rightarrow> 'a list" where
  "row m i = take (cols m) (drop (i * cols m) (data m))"

definition Mat_mul :: "'a::{zero,plus,times} Mat \<Rightarrow> 'a Mat \<Rightarrow> failure + 'a Mat" where
  \<comment> \<open>\<open>a * b\<close>: the matrix product; OpenCV asserts that \<open>a.cols == b.rows\<close>\<close>
  "Mat_mul a b =
     (if cols a = rows b
      then Inr \<lparr>rows = rows a, cols = cols b,
                data = concat (map (\<lambda>i. map (\<lambda>j. dot (row a i) (col b j)) [0..<cols b])
                                   [0..<rows a])\<rparr>
      else Inl Cv_Exception)"

definition Mat_add :: "'a::plus Mat \<Rightarrow> 'a Mat \<Rightarrow> failure + 'a Mat" where
  \<comment> \<open>\<open>a + b\<close>: the element-wise sum; OpenCV asserts that the shapes agree\<close>
  "Mat_add a b =
     (if rows a = rows b \<and> cols a = cols b
      then Inr \<lparr>rows = rows a, cols = cols a, data = map2 (+) (data a) (data b)\<rparr>
      else Inl Cv_Exception)"


section \<open>Normalising and unnormalising a basis\<close>

text \<open>
  The two free functions have the same shape: a first loop over \<open>eigenvalues.rows\<close>
  replaces entry \<open>i\<close> of a clone of the eigenvalues by a function of that entry, a second
  loop over the columns of the basis scales column \<open>basis\<close> by entry \<open>basis\<close> of the clone.
  \<open>std::sqrt\<close> on \<open>float\<close> is the parameter \<open>sq\<close>.
\<close>

primrec rows_loop :: "('a \<Rightarrow> 'a) \<Rightarrow> 'a Mat \<Rightarrow> nat list \<Rightarrow> 'a Mat \<Rightarrow> failure + 'a Mat" where
  "rows_loop f eigenvalues [] s = Inr s"
| "rows_loop f eigenvalues (i # is) s =
     seq (at1 eigenvalues (int i)) (\<lambda>e.
       if i < length (data s)
       then rows_loop f eigenvalues is (s\<lparr>data := (data s)[i := f e]\<rparr>)
       else Inl Undefined_Behaviour)"

primrec cols_loop :: "'a::times Mat \<Rightarrow> 'a Mat \<Rightarrow> nat list \<Rightarrow> 'a Mat \<Rightarrow> failure + 'a Mat" where
  "cols_loop b s [] r = Inr r"
| "cols_loop b s (basis # bs) r =
     seq (at1 s (int basis)) (\<lambda>factor.
       cols_loop b s bs (copyTo_col (mul (col b basis) factor) r basis))"

definition normalisePcaBasis :: "('a \<Rightarrow> 'a) \<Rightarrow> 'a::times Mat \<Rightarrow> 'a Mat \<Rightarrow> failure + 'a Mat" where
  "normalisePcaBasis sq unnormalisedBasis eigenvalues =
     seq (rows_loop sq eigenvalues [0..<rows eigenvalues] (clone eigenvalues))
       (\<lambda>sqrtOfEigenvalues.
          cols_loop unnormalisedBasis sqrtOfEigenvalues [0..<cols unnormalisedBasis]
            (Mat_create (rows unnormalisedBasis) (cols unnormalisedBasis)))"

definition unnormalisePcaBasis ::
  "('a \<Rightarrow> 'a) \<Rightarrow> 'a::{one,times,inverse} Mat \<Rightarrow> 'a Mat \<Rightarrow> failure + 'a Mat" where
  "unnormalisePcaBasis sq normalisedBasis eigenvalues =
     seq (rows_loop (\<lambda>e. 1 / sq e) eigenvalues [0..<rows eigenvalues] (clone eigenvalues))
       (\<lambda>oneOverSqrtOfEigenvalues.
          cols_loop normalisedBasis oneOverSqrtOfEigenvalues [0..<cols normalisedBasis]
            (Mat_create (rows normalisedBasis) (cols normalisedBasis)))"


section \<open>The PCA model\<close>

text \<open>
  The private members of \<open>class PcaModel\<close>. The state of the \<open>std::mt19937\<close> engine is
  of an arbitrary type \<open>'g\<close>.
\<close>

record ('a, 'g) PcaModel =
  engine :: 'g
  mean :: "'a Mat"
  normalisedPcaBasis :: "'a Mat"
  unnormalisedPcaBasis :: "'a Mat"
  eigenvalues :: "'a Mat"
  triangleList :: "(int \<times> int \<times> int) list"

definition getNumberOfPrincipalComponents :: "('a, 'g) PcaModel \<Rightarrow> int" where
  "getNumberOfPrincipalComponents M = int (cols (normalisedPcaBasis M))"

definition getDataDimension :: "('a, 'g) PcaModel \<Rightarrow> int" where
  "getDataDimension M = int (rows (normalisedPcaBasis M))"

definition getTriangleList :: "('a, 'g) PcaModel \<Rightarrow> (int \<times> int \<times> int) list" where
  "getTriangleList M = triangleList M"

definition getMean :: "('a, 'g) PcaModel \<Rightarrow> 'a Mat" where
  "getMean M = mean M"

definition getMeanAtPoint ::
  "('a::one, 'g) PcaModel \<Rightarrow> int \<Rightarrow> failure + ('a \<times> 'a \<times> 'a \<times> 'a)" where
  "getMeanAtPoint M vertexIndex =
     seq (cint (vertexIndex * 3)) (\<lambda>vertexIndex.
       if vertexIndex \<ge> int (rows (mean M)) then Inl Out_Of_Range
       else
         seq (at1 (mean M) vertexIndex) (\<lambda>x.
         seq (seq (cint (vertexIndex + 1)) (at1 (mean M))) (\<lambda>y.
         seq (seq (cint (vertexIndex + 2)) (at1 (mean M))) (\<lambda>z.
           Inr (x, y, z, 1)))))"


definition PcaModel_ctor ::
  "('a \<Rightarrow> 'a) \<Rightarrow> 'g \<Rightarrow> 'a::{one,times,inverse} Mat \<Rightarrow> 'a Mat \<Rightarrow> 'a Mat
     \<Rightarrow> (int \<times> int \<times> int) list \<Rightarrow> failure + ('a, 'g) PcaModel" where
  \<comment> \<open>the constructor; \<open>seeded\<close> is the engine after \<open>engine.seed(std::random_device()())\<close>\<close>
  "PcaModel_ctor sq seeded mean' pcaBasis eigenvalues' triangleList' =
     seq (unnormalisePcaBasis sq pcaBasis eigenvalues') (\<lambda>u.
       Inr \<lparr>engine = seeded, mean = mean', normalisedPcaBasis = pcaBasis,
            unnormalisedPcaBasis = u, eigenvalues = eigenvalues',
            triangleList = triangleList'\<rparr>)"

definition resize :: "'a::zero list \<Rightarrow> nat \<Rightarrow> 'a list" where
  \<comment> \<open>\<open>std::vector<float>::resize(n)\<close>: cut to \<open>n\<close> elements, or filled up with \<open>0.0f\<close>\<close>
  "resize xs n = take n xs @ replicate (n - length xs) 0"

text \<open>
  \<open>drawSample\<close> is not a \<open>const\<close> member function: both overloads return the model
  next to their result.
\<close>

definition drawSample ::
  "('a::{zero,plus,times}, 'g) PcaModel \<Rightarrow> 'a list
     \<Rightarrow> (failure + 'a Mat) \<times> ('a, 'g) PcaModel" where
  "drawSample M coefficients =
     (let coefficients =
            (if int (length coefficients) < getNumberOfPrincipalComponents M
             then resize coefficients (nat (getNumberOfPrincipalComponents M))
             else coefficients);
          alphas = Mat_of_vector coefficients
      in (seq (Mat_mul (normalisedPcaBasis M) alphas) (Mat_add (mean M)), M))"

primrec draw_alphas :: "('g \<Rightarrow> 'a \<times> 'g) \<Rightarrow> nat \<Rightarrow> 'g \<Rightarrow> 'a list \<times> 'g" where
  "draw_alphas distribution 0 g = ([], g)"
| "draw_alphas distribution (Suc k) g =
     (case distribution g of (a, g') \<Rightarrow>
        (case draw_alphas distribution k g' of (as, g'') \<Rightarrow> (a # as, g'')))"

definition drawSample_sigma ::
  "('a \<Rightarrow> 'g \<Rightarrow> 'a \<times> 'g) \<Rightarrow> ('a::{zero,plus,times}, 'g) PcaModel \<Rightarrow> 'a
     \<Rightarrow> (failure + 'a Mat) \<times> ('a, 'g) PcaModel" where
  \<comment> \<open>\<open>normal sigma\<close> is a draw of \<open>std::normal_distribution<float>(0.0f, sigma)\<close>: it
      reads the engine and advances it\<close>
  "drawSample_sigma normal M sigma =
     (case draw_alphas (normal sigma) (nat (getNumberOfPrincipalComponents M)) (engine M)
      of (alphas, g) \<Rightarrow> drawSample (M\<lparr>engine := g\<rparr>) alphas)"

definition getNormalisedPcaBasis :: "('a, 'g) PcaModel \<Rightarrow> 'a Mat" where
  "getNormalisedPcaBasis M = clone (normalisedPcaBasis M)"

definition getNormalisedPcaBasis_at :: "('a, 'g) PcaModel \<Rightarrow> int \<Rightarrow> failure + 'a Mat" where
  \<comment> \<open>the overload \<open>getNormalisedPcaBasis(int vertexId)\<close>\<close>
  "getNormalisedPcaBasis_at M vertexId =
     seq (cint (vertexId * 3)) (\<lambda>vertexId.
       seq (cint (vertexId + 3)) (\<lambda>end.
         rowRange (normalisedPcaBasis M) vertexId end))"

definition getUnnormalisedPcaBasis :: "('a, 'g) PcaModel \<Rightarrow> 'a Mat" where
  "getUnnormalisedPcaBasis M = clone (unnormalisedPcaBasis M)"

definition getUnnormalisedPcaBasis_at :: "('a, 'g) PcaModel \<Rightarrow> int \<Rightarrow> failure + 'a Mat" where
  \<comment> \<open>the overload \<open>getUnnormalisedPcaBasis(int vertexId)\<close>\<close>
  "getUnnormalisedPcaBasis_at M vertexId =
     seq (cint (vertexId * 3)) (\<lambda>vertexId.
       seq (cint (vertexId + 3)) (\<lambda>end.
         rowRange (unnormalisedPcaBasis M) vertexId end))"

definition getEigenvalue :: "('a, 'g) PcaModel \<Rightarrow> int \<Rightarrow> failure + 'a" where
  "getEigenvalue M index = at1 (eigenvalues M) index"


section \<open>The public interface as a whole\<close>

text \<open>
  A call of a public member function, and what comes back from it. \<open>invoke\<close> gives the
  outcome of the call and the model after it. The \<open>const\<close> member functions leave the
  model as it is; \<open>run\<close> makes a sequence of calls on one model, where the caller
  catches every exception and goes on, and nothing is known of the model any more once the
  behaviour is undefined.
\<close>

datatype 'a call =
    Call_getNumberOfPrincipalComponents
  | Call_getDataDimension
  | Call_getTriangleList
  | Call_getMean
  | Call_getMeanAtPoint int
  | Call_drawSample_sigma 'a
  | Call_drawSample "'a list"
  | Call_getNormalisedPcaBasis
  | Call_getNormalisedPcaBasis_at int
  | Call_getUnnormalisedPcaBasis
  | Call_getUnnormalisedPcaBasis_at int
  | Call_getEigenvalue int

datatype 'a returned =
    Ret_int int
  | Ret_triangles "(int \<times> int \<times> int) list"
  | Ret_Mat "'a Mat"
  | Ret_Vec4f "'a \<times> 'a \<times> 'a \<times> 'a"
  | Ret_float 'a

definition returning :: "('b \<Rightarrow> 'a returned) \<Rightarrow> failure + 'b \<Rightarrow> failure + 'a returned" where
  "returning wrap r = seq r (\<lambda>v. Inr (wrap v))"

primrec invoke ::
  "('a \<Rightarrow> 'g \<Rightarrow> 'a \<times> 'g) \<Rightarrow> 'a::{zero,one,plus,times} call \<Rightarrow> ('a, 'g) PcaModel
     \<Rightarrow> (failure + 'a returned) \<times> ('a, 'g) PcaModel" where
  "invoke normal Call_getNumberOfPrincipalComponents M =
     (Inr (Ret_int (getNumberOfPrincipalComponents M)), M)"
| "invoke normal Call_getDataDimension M = (Inr (Ret_int (getDataDimension M)), M)"
| "invoke normal Call_getTriangleList M = (Inr (Ret_triangles (getTriangleList M)), M)"
| "invoke normal Call_getMean M = (Inr (Ret_Mat (getMean M)), M)"
| "invoke normal (Call_getMeanAtPoint vertexIndex) M =
     (returning Ret_Vec4f (getMeanAtPoint M vertexIndex), M)"
| "invoke normal (Call_drawSample_sigma sigma) M =
     (case drawSample_sigma normal M sigma of (r, M') \<Rightarrow> (returning Ret_Mat r, M'))"
| "invoke normal (Call_drawSample coefficients) M =
     (case drawSample M coefficients of (r, M') \<Rightarrow> (returning Ret_Mat r, M'))"
| "invoke normal Call_getNormalisedPcaBasis M = (Inr (Ret_Mat (getNormalisedPcaBasis M)), M)"
| "invoke normal (Call_getNormalisedPcaBasis_at vertexId) M =
     (returning Ret_Mat (getNormalisedPcaBasis_at M vertexId), M)"
| "invoke normal Call_getUnnormalisedPcaBasis M =
     (Inr (Ret_Mat (getUnnormalisedPcaBasis M)), M)"
| "invoke normal (Call_getUnnormalisedPcaBasis_at vertexId) M =
     (returning Ret_Mat (getUnnormalisedPcaBasis_at M vertexId), M)"
| "invoke normal (Call_getEigenvalue index) M =
     (returning Ret_float (getEigenvalue M index), M)"

primrec run ::
  "('a \<Rightarrow> 'g \<Rightarrow> 'a \<times> 'g) \<Rightarrow> 'a::{zero,one,plus,times} call list \<Rightarrow> ('a, 'g) PcaModel
     \<Rightarrow> ('a, 'g) PcaModel option" where
  "run normal [] M = Some M"
| "run normal (c # cs) M =
     (case invoke normal c M of (r, M') \<Rightarrow>
        if r = Inl Undefined_Behaviour then None else run normal cs M')"

definition basis_consistent :: "('a \<Rightarrow> 'a) \<Rightarrow> ('a::{one,times,inverse}, 'g) PcaModel \<Rightarrow> bool" where
  \<comment> \<open>the unnormalised basis is the normalised one, column \<open>j\<close> scaled by
      \<open>1 / sqrt(eigenvalue j)\<close>\<close>
  "basis_consistent sq M \<longleftrightarrow>
     rows (unnormalisedPcaBasis M) = rows (normalisedPcaBasis M)
   \<and> cols (unnormalisedPcaBasis M) = cols (normalisedPcaBasis M)
   \<and> (\<forall>i<rows (normalisedPcaBasis M). \<forall>j<cols (normalisedPcaBasis M).
         at2 (unnormalisedPcaBasis M) i j
           = at2 (normalisedPcaBasis M) i j * (1 / sq (data (eigenvalues M) ! j)))"


section \<open>Example data\<close>

definition two_columns :: "real Mat" where
  "two_columns = \<lparr>rows = 3, cols = 2, data = [3, 5, 1, 0, 0, 1]\<rparr>"

definition column_of_fours :: "real Mat" where
  "column_of_fours = \<lparr>rows = 2, cols = 1, data = [4, 4]\<rparr>"

definition row_of_fours :: "real Mat" where
  "row_of_fours = \<lparr>rows = 1, cols = 2, data = [4, 4]\<rparr>"


text \<open>
  The model of the specification's example: two vertices, one principal component with
  eigenvalue 4.
\<close>

definition example_model :: "(real, nat) PcaModel" where
  "example_model =
     \<lparr>engine = 0,
      mean = \<lparr>rows = 6, cols = 1, data = [0, 0, 0, 1, 1, 1]\<rparr>,
      normalisedPcaBasis = \<lparr>rows = 6, cols = 1, data = [1, 0, 0, 0, 0, 1]\<rparr>,
      unnormalisedPcaBasis = \<lparr>rows = 6, cols = 1, data = [1 / 2, 0, 0, 0, 0, 1 / 2]\<rparr>,
      eigenvalues = \<lparr>rows = 1, cols = 1, data = [4]\<rparr>,
      triangleList = []\<rparr>"

text \<open>A model with three principal components and one vertex.\<close>

definition three_component_model :: "(real, nat) PcaModel" where
  "three_component_model =
     \<lparr>engine = 0,
      mean = \<lparr>rows = 3, cols = 1, data = [1, 2, 3]\<rparr>,
      normalisedPcaBasis = \<lparr>rows = 3, cols = 3, data = [1, 2, 0, 0, 1, 0, 0, 0, 1]\<rparr>,
      unnormalisedPcaBasis = \<lparr>rows = 3, cols = 3, data = [1, 2, 0, 0, 1, 0, 0, 0, 1]\<rparr>,
      eigenvalues = \<lparr>rows = 3, cols = 1, data = [1, 1, 1]\<rparr>,
      triangleList = []\<rparr>"

definition fixed_draw :: "real \<Rightarrow> nat \<Rightarrow> real \<times> nat" where
  \<comment> \<open>a stand-in for the normal distribution: the engine is a counter\<close>
  "fixed_draw sigma g = (sigma * real g, Suc g)"

section \<open>Facts about the matrix primitives and the two loops\<close>

lemma seq_Inr [simp]: "seq (Inr v) f = f v"
  by (simp add: seq_def)

lemma seq_Inl [simp]: "seq (Inl e) f = Inl e"
  by (simp add: seq_def)

lemma at1_nat: "i < length (data m) \<Longrightarrow> at1 m (int i) = Inr (data m ! i)"
  by (simp add: at1_def)

lemma index_bound:
  fixes i j r c :: nat
  assumes "i < r" "j < c"
  shows "i * c + j < r * c"
proof -
  have "i * c + j < i * c + c" using assms by simp
  also have "\<dots> = Suc i * c" by simp
  also have "\<dots> \<le> r * c" using assms by (intro mult_le_mono1) simp
  finally show ?thesis .
qed

lemma div_bound:
  fixes k r c :: nat
  assumes "k < r * c"
  shows "k div c < r"
  using assms by (simp add: less_mult_imp_div_less)

lemma rows_loop_Inr:
  assumes "\<forall>i\<in>set is. i < length (data E)" "length (data s) = length (data E)"
  shows "\<exists>s'. rows_loop f E is s = Inr s' \<and> rows s' = rows s \<and> cols s' = cols s
           \<and> length (data s') = length (data s)
           \<and> (\<forall>k<length (data s). data s' ! k = (if k \<in> set is then f (data E ! k) else data s ! k))"
  using assms
proof (induction "is" arbitrary: s)
  case Nil
  then show ?case by simp
next
  case (Cons i "is")
  let ?s1 = "s\<lparr>data := (data s)[i := f (data E ! i)]\<rparr>"
  have i: "i < length (data E)" using Cons.prems by simp
  have "\<exists>s'. rows_loop f E is ?s1 = Inr s' \<and> rows s' = rows ?s1 \<and> cols s' = cols ?s1
           \<and> length (data s') = length (data ?s1)
           \<and> (\<forall>k<length (data ?s1). data s' ! k = (if k \<in> set is then f (data E ! k) else data ?s1 ! k))"
    by (rule Cons.IH) (use Cons.prems in simp_all)
  then obtain s' where s': "rows_loop f E is ?s1 = Inr s'" "rows s' = rows s" "cols s' = cols s"
      "length (data s') = length (data s)"
      "\<forall>k<length (data s). data s' ! k = (if k \<in> set is then f (data E ! k) else data ?s1 ! k)"
    by auto
  have "rows_loop f E (i # is) s = Inr s'"
    using i Cons.prems(2) s'(1) by (simp add: at1_nat)
  moreover have "\<forall>k<length (data s). data s' ! k = (if k \<in> set (i # is) then f (data E ! k) else data s ! k)"
    using s'(5) by (auto simp: nth_list_update)
  ultimately show ?case using s'(2,3,4) by blast
qed

lemma copyTo_col_shape:
  "rows (copyTo_col xs r j) = rows r" "cols (copyTo_col xs r j) = cols r"
  "length (data (copyTo_col xs r j)) = length (data r)"
  by (simp_all add: copyTo_col_def)

lemma copyTo_col_nth:
  "k < length (data r) \<Longrightarrow>
   data (copyTo_col xs r j) ! k = (if k mod cols r = j then xs ! (k div cols r) else data r ! k)"
  by (simp add: copyTo_col_def)

lemma scaled_col_nth:
  assumes "length (data b) = rows b * cols b" "k < rows b * cols b"
  shows "mul (col b (k mod cols b)) x ! (k div cols b) = data b ! k * x"
proof -
  have "k div cols b < rows b" using assms(2) by (rule div_bound)
  then show ?thesis by (simp add: mul_def col_def)
qed

lemma cols_loop_Inr:
  fixes b :: "'a::times Mat"
  assumes "\<forall>j\<in>set js. j < length (data s)"
    and "length (data b) = rows b * cols b" "cols r = cols b" "length (data r) = rows b * cols b"
  shows "\<exists>r'. cols_loop b s js r = Inr r' \<and> rows r' = rows r \<and> cols r' = cols r
           \<and> length (data r') = length (data r)
           \<and> (\<forall>k<rows b * cols b. data r' ! k =
                 (if k mod cols b \<in> set js then data b ! k * data s ! (k mod cols b)
                  else data r ! k))"
  using assms
proof (induction js arbitrary: r)
  case Nil
  then show ?case by simp
next
  case (Cons j js)
  let ?r1 = "copyTo_col (mul (col b j) (data s ! j)) r j"
  have j: "j < length (data s)" using Cons.prems by simp
  have "\<exists>r'. cols_loop b s js ?r1 = Inr r' \<and> rows r' = rows ?r1 \<and> cols r' = cols ?r1
           \<and> length (data r') = length (data ?r1)
           \<and> (\<forall>k<rows b * cols b. data r' ! k =
                 (if k mod cols b \<in> set js then data b ! k * data s ! (k mod cols b)
                  else data ?r1 ! k))"
    by (rule Cons.IH) (use Cons.prems in \<open>simp_all add: copyTo_col_shape\<close>)
  then obtain r' where r': "cols_loop b s js ?r1 = Inr r'" "rows r' = rows r" "cols r' = cols r"
      "length (data r') = length (data r)"
      "\<forall>k<rows b * cols b. data r' ! k =
                 (if k mod cols b \<in> set js then data b ! k * data s ! (k mod cols b)
                  else data ?r1 ! k)"
    by (auto simp: copyTo_col_shape)
  have run: "cols_loop b s (j # js) r = Inr r'"
    using j r'(1) by (simp add: at1_nat)
  have "data r' ! k = (if k mod cols b \<in> set (j # js) then data b ! k * data s ! (k mod cols b)
                  else data r ! k)" if k: "k < rows b * cols b" for k
  proof (cases "k mod cols b \<in> set js")
    case True
    then show ?thesis using r'(5) k by simp
  next
    case False
    have "data r' ! k = data ?r1 ! k" using r'(5) k False by simp
    also have "\<dots> = (if k mod cols b = j then mul (col b j) (data s ! j) ! (k div cols b) else data r ! k)"
      using k Cons.prems(3,4) by (simp add: copyTo_col_nth)
    also have "\<dots> = (if k mod cols b = j then data b ! k * data s ! j else data r ! k)"
      using scaled_col_nth [OF Cons.prems(2) k] by auto
    finally show ?thesis using False by auto
  qed
  then show ?case using run r'(2,3,4) by blast
qed


lemma scale_basis:
  fixes B :: "'a::times Mat"
  assumes B: "length (data B) = rows B * cols B"
    and E: "rows E \<le> length (data E)" "cols B \<le> length (data E)"
  shows "\<exists>R. seq (rows_loop f E [0..<rows E] (clone E))
               (\<lambda>s. cols_loop B s [0..<cols B] (Mat_create (rows B) (cols B))) = Inr R
           \<and> rows R = rows B \<and> cols R = cols B \<and> length (data R) = rows B * cols B
           \<and> (\<forall>k<rows B * cols B. data R ! k =
                 data B ! k * (if k mod cols B < rows E then f (data E ! (k mod cols B))
                               else data E ! (k mod cols B)))"
proof -
  have "\<exists>s. rows_loop f E [0..<rows E] (clone E) = Inr s \<and> rows s = rows (clone E)
           \<and> cols s = cols (clone E) \<and> length (data s) = length (data (clone E))
           \<and> (\<forall>k<length (data (clone E)). data s ! k =
                 (if k \<in> set [0..<rows E] then f (data E ! k) else data (clone E) ! k))"
    by (rule rows_loop_Inr) (use E in \<open>simp_all add: clone_def\<close>)
  then obtain s where s: "rows_loop f E [0..<rows E] (clone E) = Inr s"
      "length (data s) = length (data E)"
      "\<forall>k<length (data E). data s ! k = (if k < rows E then f (data E ! k) else data E ! k)"
    by (auto simp: clone_def)
  let ?r = "Mat_create (rows B) (cols B) :: 'a Mat"
  have "\<exists>R. cols_loop B s [0..<cols B] ?r = Inr R \<and> rows R = rows ?r \<and> cols R = cols ?r
           \<and> length (data R) = length (data ?r)
           \<and> (\<forall>k<rows B * cols B. data R ! k =
                 (if k mod cols B \<in> set [0..<cols B] then data B ! k * data s ! (k mod cols B)
                  else data ?r ! k))"
    by (rule cols_loop_Inr) (use B E s(2) in \<open>simp_all add: Mat_create_def\<close>)
  then obtain R where R: "cols_loop B s [0..<cols B] ?r = Inr R" "rows R = rows B"
      "cols R = cols B" "length (data R) = rows B * cols B"
      "\<forall>k<rows B * cols B. data R ! k =
                 (if k mod cols B \<in> set [0..<cols B] then data B ! k * data s ! (k mod cols B)
                  else data ?r ! k)"
    by (auto simp: Mat_create_def)
  have "data R ! k = data B ! k * (if k mod cols B < rows E then f (data E ! (k mod cols B))
                               else data E ! (k mod cols B))" if k: "k < rows B * cols B" for k
  proof -
    have c: "0 < cols B" using k by (cases "cols B") simp_all
    then have m: "k mod cols B < cols B" by simp
    then have "k mod cols B < length (data E)" using E(2) by simp
    then have "data s ! (k mod cols B) = (if k mod cols B < rows E then f (data E ! (k mod cols B))
                               else data E ! (k mod cols B))"
      using s(3) by simp
    moreover have "data R ! k = data B ! k * data s ! (k mod cols B)"
      using R(5) k m by simp
    ultimately show ?thesis by simp
  qed
  then show ?thesis using s(1) R(1,2,3,4) by simp
qed

lemma at2_index:
  assumes "i < rows m" "j < cols m"
  shows "i * cols m + j < rows m * cols m" "(i * cols m + j) mod cols m = j"
    "(i * cols m + j) div cols m = i"
  using assms by (simp_all add: index_bound)


lemma normalisePcaBasis_nth:
  fixes B :: "'a::times Mat"
  assumes "length (data B) = rows B * cols B"
    and "rows E \<le> length (data E)" "cols B \<le> length (data E)"
  shows "\<exists>N. normalisePcaBasis sq B E = Inr N
           \<and> rows N = rows B \<and> cols N = cols B \<and> length (data N) = rows B * cols B
           \<and> (\<forall>k<rows B * cols B. data N ! k =
                 data B ! k * (if k mod cols B < rows E then sq (data E ! (k mod cols B))
                               else data E ! (k mod cols B)))"
  unfolding normalisePcaBasis_def using assms by (rule scale_basis)

lemma unnormalisePcaBasis_nth:
  fixes B :: "'a::{one,times,inverse} Mat"
  assumes "length (data B) = rows B * cols B"
    and "rows E \<le> length (data E)" "cols B \<le> length (data E)"
  shows "\<exists>U. unnormalisePcaBasis sq B E = Inr U
           \<and> rows U = rows B \<and> cols U = cols B \<and> length (data U) = rows B * cols B
           \<and> (\<forall>k<rows B * cols B. data U ! k =
                 data B ! k * (if k mod cols B < rows E then 1 / sq (data E ! (k mod cols B))
                               else data E ! (k mod cols B)))"
  unfolding unnormalisePcaBasis_def using assms by (rule scale_basis)

lemma nth_to_at2:
  assumes "rows R = rows B" "cols R = cols B"
    and "\<forall>k<rows B * cols B. data R ! k = data B ! k * g (k mod cols B)"
    and "i < rows B" "j < cols B"
  shows "at2 R i j = at2 B i j * g j"
  using assms at2_index [of i B j] by (simp add: at2_def)

lemma normalisePcaBasis_at2:
  fixes B :: "'a::times Mat"
  assumes "length (data B) = rows B * cols B"
    and "rows E \<le> length (data E)" "cols B \<le> length (data E)"
  shows "\<exists>N. normalisePcaBasis sq B E = Inr N
           \<and> rows N = rows B \<and> cols N = cols B \<and> length (data N) = rows B * cols B
           \<and> (\<forall>i<rows B. \<forall>j<cols B. at2 N i j =
                 at2 B i j * (if j < rows E then sq (data E ! j) else data E ! j))"
proof -
  from normalisePcaBasis_nth [OF assms, of sq] obtain N where N:
    "normalisePcaBasis sq B E = Inr N" "rows N = rows B" "cols N = cols B"
    "length (data N) = rows B * cols B"
    "\<forall>k<rows B * cols B. data N ! k =
       data B ! k * (if k mod cols B < rows E then sq (data E ! (k mod cols B))
                     else data E ! (k mod cols B))"
    by blast
  have "at2 N i j = at2 B i j * (if j < rows E then sq (data E ! j) else data E ! j)"
    if "i < rows B" "j < cols B" for i j
    using nth_to_at2 [OF N(2,3,5) that] .
  then show ?thesis using N(1,2,3,4) by blast
qed

lemma unnormalisePcaBasis_at2:
  fixes B :: "'a::{one,times,inverse} Mat"
  assumes "length (data B) = rows B * cols B"
    and "rows E \<le> length (data E)" "cols B \<le> length (data E)"
  shows "\<exists>U. unnormalisePcaBasis sq B E = Inr U
           \<and> rows U = rows B \<and> cols U = cols B \<and> length (data U) = rows B * cols B
           \<and> (\<forall>i<rows B. \<forall>j<cols B. at2 U i j =
                 at2 B i j * (if j < rows E then 1 / sq (data E ! j) else data E ! j))"
proof -
  from unnormalisePcaBasis_nth [OF assms, of sq] obtain U where U:
    "unnormalisePcaBasis sq B E = Inr U" "rows U = rows B" "cols U = cols B"
    "length (data U) = rows B * cols B"
    "\<forall>k<rows B * cols B. data U ! k =
       data B ! k * (if k mod cols B < rows E then 1 / sq (data E ! (k mod cols B))
                     else data E ! (k mod cols B))"
    by blast
  have "at2 U i j = at2 B i j * (if j < rows E then 1 / sq (data E ! j) else data E ! j)"
    if "i < rows B" "j < cols B" for i j
    using nth_to_at2 [OF U(2,3,5) that] .
  then show ?thesis using U(1,2,3,4) by blast
qed

text \<open>
  Claim C9. The column-wise scaling is guaranteed for eigenvalues stored as a column
  vector only. For a basis \<open>B\<close> with \<open>n\<close> columns and an \<open>n\<times>1\<close> matrix \<open>E\<close>, both
  functions return, every element of column \<open>j\<close> of \<open>normalisePcaBasis(B, E)\<close> is the
  element of \<open>B\<close> times \<open>sqrt(E[j])\<close>, and every element of column \<open>j\<close> of
  \<open>unnormalisePcaBasis(B, E)\<close> is the element of \<open>B\<close> times \<open>1 / sqrt(E[j])\<close>. The
  first loop runs over \<open>E.rows\<close> entries: for a \<open>1\<times>n\<close> row vector only column \<open>0\<close> is
  scaled by a square root, and every later column \<open>j\<close> by the eigenvalue \<open>E[j]\<close> itself.
\<close>

theorem scaling_needs_column_vector:
  fixes B :: "'a::{one,times,inverse} Mat"
  assumes "wf_Mat B" "wf_Mat E"
  shows "(rows E = cols B \<and> cols E = 1 \<longrightarrow>
          (\<exists>N U. normalisePcaBasis sq B E = Inr N \<and> unnormalisePcaBasis sq B E = Inr U
             \<and> rows N = rows B \<and> cols N = cols B \<and> rows U = rows B \<and> cols U = cols B
             \<and> (\<forall>i<rows B. \<forall>j<cols B.
                   at2 N i j = at2 B i j * sq (data E ! j)
                 \<and> at2 U i j = at2 B i j * (1 / sq (data E ! j)))))
       \<and> (rows E = 1 \<and> cols E = cols B \<and> 0 < cols B \<longrightarrow>
          (\<exists>N U. normalisePcaBasis sq B E = Inr N \<and> unnormalisePcaBasis sq B E = Inr U
             \<and> (\<forall>i<rows B. \<forall>j<cols B.
                   at2 N i j = at2 B i j * (if j = 0 then sq (data E ! j) else data E ! j)
                 \<and> at2 U i j = at2 B i j * (if j = 0 then 1 / sq (data E ! j) else data E ! j))))"
proof (intro conjI impI)
  assume "rows E = cols B \<and> cols E = 1"
  then have E: "rows E = cols B" "length (data E) = cols B"
    using assms(2) by (simp_all add: wf_Mat_def)
  have B: "length (data B) = rows B * cols B" using assms(1) by (simp add: wf_Mat_def)
  from normalisePcaBasis_at2 [OF B, of E sq] E obtain N where N:
    "normalisePcaBasis sq B E = Inr N" "rows N = rows B" "cols N = cols B"
    "\<forall>i<rows B. \<forall>j<cols B. at2 N i j = at2 B i j * sq (data E ! j)"
    by auto
  from unnormalisePcaBasis_at2 [OF B, of E sq] E obtain U where U:
    "unnormalisePcaBasis sq B E = Inr U" "rows U = rows B" "cols U = cols B"
    "\<forall>i<rows B. \<forall>j<cols B. at2 U i j = at2 B i j * (1 / sq (data E ! j))"
    by auto
  show "\<exists>N U. normalisePcaBasis sq B E = Inr N \<and> unnormalisePcaBasis sq B E = Inr U
             \<and> rows N = rows B \<and> cols N = cols B \<and> rows U = rows B \<and> cols U = cols B
             \<and> (\<forall>i<rows B. \<forall>j<cols B.
                   at2 N i j = at2 B i j * sq (data E ! j)
                 \<and> at2 U i j = at2 B i j * (1 / sq (data E ! j)))"
    using N U by blast
next
  assume "rows E = 1 \<and> cols E = cols B \<and> 0 < cols B"
  then have E: "rows E = 1" "length (data E) = cols B" "0 < cols B"
    using assms(2) by (simp_all add: wf_Mat_def)
  have B: "length (data B) = rows B * cols B" using assms(1) by (simp add: wf_Mat_def)
  have le: "rows E \<le> length (data E)" "cols B \<le> length (data E)" using E by simp_all
  from normalisePcaBasis_at2 [OF B le, of sq] E(1) obtain N where N:
    "normalisePcaBasis sq B E = Inr N"
    "\<forall>i<rows B. \<forall>j<cols B. at2 N i j = at2 B i j * (if j < 1 then sq (data E ! j) else data E ! j)"
    by auto
  from unnormalisePcaBasis_at2 [OF B le, of sq] E(1) obtain U where U:
    "unnormalisePcaBasis sq B E = Inr U"
    "\<forall>i<rows B. \<forall>j<cols B. at2 U i j = at2 B i j * (if j < 1 then 1 / sq (data E ! j) else data E ! j)"
    by auto
  show "\<exists>N U. normalisePcaBasis sq B E = Inr N \<and> unnormalisePcaBasis sq B E = Inr U
             \<and> (\<forall>i<rows B. \<forall>j<cols B.
                   at2 N i j = at2 B i j * (if j = 0 then sq (data E ! j) else data E ! j)
                 \<and> at2 U i j = at2 B i j * (if j = 0 then 1 / sq (data E ! j) else data E ! j))"
    using N U by (intro exI [of _ N] exI [of _ U]) simp
qed

theorem scaling_needs_column_vector_witness:
  "wf_Mat two_columns \<and> wf_Mat column_of_fours \<and> wf_Mat row_of_fours
   \<and> rows column_of_fours = cols two_columns \<and> cols column_of_fours = 1
   \<and> (\<exists>N U. normalisePcaBasis sqrt two_columns column_of_fours = Inr N
          \<and> unnormalisePcaBasis sqrt two_columns column_of_fours = Inr U
          \<and> at2 N 0 1 = 10 \<and> at2 U 0 1 = 5 / 2)
   \<and> rows row_of_fours = 1 \<and> cols row_of_fours = cols two_columns \<and> 0 < cols two_columns
   \<and> (\<exists>N U. normalisePcaBasis sqrt two_columns row_of_fours = Inr N
          \<and> unnormalisePcaBasis sqrt two_columns row_of_fours = Inr U
          \<and> at2 N 0 1 = 20 \<and> at2 U 0 1 = 20)"
proof -
  have wf: "wf_Mat two_columns" "wf_Mat column_of_fours" "wf_Mat row_of_fours"
    by (simp_all add: wf_Mat_def two_columns_def column_of_fours_def row_of_fours_def INT_MAX_def)
  have shape: "rows column_of_fours = cols two_columns \<and> cols column_of_fours = 1"
    "rows row_of_fours = 1 \<and> cols row_of_fours = cols two_columns \<and> 0 < cols two_columns"
    by (simp_all add: two_columns_def column_of_fours_def row_of_fours_def)
  have vals: "at2 two_columns 0 (Suc 0) = 5" "data column_of_fours ! Suc 0 = 4"
    "data row_of_fours ! Suc 0 = 4"
    "rows two_columns = 3" "cols two_columns = 2"
    by (simp_all add: at2_def two_columns_def column_of_fours_def row_of_fours_def)
  from scaling_needs_column_vector [OF wf(1) wf(2), of sqrt] shape(1)
  obtain N U where c: "normalisePcaBasis sqrt two_columns column_of_fours = Inr N"
    "unnormalisePcaBasis sqrt two_columns column_of_fours = Inr U"
    "\<forall>i<rows two_columns. \<forall>j<cols two_columns.
        at2 N i j = at2 two_columns i j * sqrt (data column_of_fours ! j)
      \<and> at2 U i j = at2 two_columns i j * (1 / sqrt (data column_of_fours ! j))"
    by blast
  from c(3) [rule_format, of 0 1] have "at2 N 0 1 = 10 \<and> at2 U 0 1 = 5 / 2" by (simp add: vals)
  with c(1,2) have col: "\<exists>N U. normalisePcaBasis sqrt two_columns column_of_fours = Inr N
          \<and> unnormalisePcaBasis sqrt two_columns column_of_fours = Inr U
          \<and> at2 N 0 1 = 10 \<and> at2 U 0 1 = 5 / 2" by blast
  from scaling_needs_column_vector [OF wf(1) wf(3), of sqrt] shape(2)
  obtain N' U' where r: "normalisePcaBasis sqrt two_columns row_of_fours = Inr N'"
    "unnormalisePcaBasis sqrt two_columns row_of_fours = Inr U'"
    "\<forall>i<rows two_columns. \<forall>j<cols two_columns.
        at2 N' i j = at2 two_columns i j * (if j = 0 then sqrt (data row_of_fours ! j) else data row_of_fours ! j)
      \<and> at2 U' i j = at2 two_columns i j * (if j = 0 then 1 / sqrt (data row_of_fours ! j) else data row_of_fours ! j)"
    by blast
  from r(3) [rule_format, of 0 1] have "at2 N' 0 1 = 20 \<and> at2 U' 0 1 = 20" by (simp add: vals)
  with r(1,2) have row: "\<exists>N U. normalisePcaBasis sqrt two_columns row_of_fours = Inr N
          \<and> unnormalisePcaBasis sqrt two_columns row_of_fours = Inr U
          \<and> at2 N 0 1 = 20 \<and> at2 U 0 1 = 20" by blast
  show ?thesis using wf shape col row by blast
qed


text \<open>
  Over the real numbers, where \<open>sqrt e * (1 / sqrt e) = 1\<close> for a positive \<open>e\<close>, the two
  functions are inverse to each other for a column vector of positive eigenvalues. The
  rounding of \<open>float\<close>, which the tolerance of claim C1 is about, is not part of this
  theory.
\<close>

lemma roundtrip_in_exact_arithmetic:
  fixes B :: "real Mat"
  assumes "wf_Mat B" "wf_Mat E" "rows E = cols B" "cols E = 1"
    and pos: "\<forall>e\<in>set (data E). 0 < e"
  shows "seq (normalisePcaBasis sqrt B E) (\<lambda>N. unnormalisePcaBasis sqrt N E) = Inr B"
    and "seq (unnormalisePcaBasis sqrt B E) (\<lambda>U. normalisePcaBasis sqrt U E) = Inr B"
proof -
  have B: "length (data B) = rows B * cols B" using assms(1) by (simp add: wf_Mat_def)
  have E: "rows E \<le> length (data E)" "cols B \<le> length (data E)" "length (data E) = cols B"
    using assms(2,3,4) by (simp_all add: wf_Mat_def)
  have root: "sqrt (data E ! (k mod cols B)) \<noteq> 0" if "k < rows B * cols B" for k
  proof -
    have "0 < cols B" using that by (cases "cols B") simp_all
    then have "k mod cols B < length (data E)" using E(3) by simp
    then have "0 < data E ! (k mod cols B)" using pos by simp
    then show ?thesis by simp
  qed
  have md: "k mod cols B < rows E" if "k < rows B * cols B" for k
  proof -
    have "0 < cols B" using that by (cases "cols B") simp_all
    then show ?thesis using assms(3) by simp
  qed
  from normalisePcaBasis_nth [OF B E(1,2), of sqrt] obtain N where N:
    "normalisePcaBasis sqrt B E = Inr N" "rows N = rows B" "cols N = cols B"
    "length (data N) = rows B * cols B"
    "\<forall>k<rows B * cols B. data N ! k =
       data B ! k * (if k mod cols B < rows E then sqrt (data E ! (k mod cols B))
                     else data E ! (k mod cols B))"
    by blast
  have N': "length (data N) = rows N * cols N" "cols N \<le> length (data E)"
    using N(2,3,4) E(2) by simp_all
  from unnormalisePcaBasis_nth [OF N' (1) E(1) N' (2), of sqrt] N(2,3) obtain U where U:
    "unnormalisePcaBasis sqrt N E = Inr U" "rows U = rows B" "cols U = cols B"
    "length (data U) = rows B * cols B"
    "\<forall>k<rows B * cols B. data U ! k =
       data N ! k * (if k mod cols B < rows E then 1 / sqrt (data E ! (k mod cols B))
                     else data E ! (k mod cols B))"
    by auto
  have "data U = data B"
  proof (rule nth_equalityI)
    show "length (data U) = length (data B)" using U(4) B by simp
    fix k assume "k < length (data U)"
    then have k: "k < rows B * cols B" using U(4) by simp
    show "data U ! k = data B ! k"
      using U(5) N(5) k md [OF k] root [OF k] by simp
  qed
  then have "U = B" using U(2,3) by simp
  then show "seq (normalisePcaBasis sqrt B E) (\<lambda>N. unnormalisePcaBasis sqrt N E) = Inr B"
    using N(1) U(1) by simp
  from unnormalisePcaBasis_nth [OF B E(1,2), of sqrt] obtain V where V:
    "unnormalisePcaBasis sqrt B E = Inr V" "rows V = rows B" "cols V = cols B"
    "length (data V) = rows B * cols B"
    "\<forall>k<rows B * cols B. data V ! k =
       data B ! k * (if k mod cols B < rows E then 1 / sqrt (data E ! (k mod cols B))
                     else data E ! (k mod cols B))"
    by blast
  have V': "length (data V) = rows V * cols V" "cols V \<le> length (data E)"
    using V(2,3,4) E(2) by simp_all
  from normalisePcaBasis_nth [OF V' (1) E(1) V' (2), of sqrt] V(2,3) obtain W where W:
    "normalisePcaBasis sqrt V E = Inr W" "rows W = rows B" "cols W = cols B"
    "length (data W) = rows B * cols B"
    "\<forall>k<rows B * cols B. data W ! k =
       data V ! k * (if k mod cols B < rows E then sqrt (data E ! (k mod cols B))
                     else data E ! (k mod cols B))"
    by auto
  have "data W = data B"
  proof (rule nth_equalityI)
    show "length (data W) = length (data B)" using W(4) B by simp
    fix k assume "k < length (data W)"
    then have k: "k < rows B * cols B" using W(4) by simp
    show "data W ! k = data B ! k"
      using W(5) V(5) k md [OF k] root [OF k] by simp
  qed
  then have "W = B" using W(2,3) by simp
  then show "seq (unnormalisePcaBasis sqrt B E) (\<lambda>U. normalisePcaBasis sqrt U E) = Inr B"
    using V(1) W(1) by simp
qed

lemma cols_loop_shape:
  "cols_loop b s js r = Inr r' \<Longrightarrow>
   rows r' = rows r \<and> cols r' = cols r \<and> length (data r') = length (data r)"
proof (induction js arbitrary: r)
  case Nil
  then show ?case by simp
next
  case (Cons j js)
  then show ?case
    by (cases "at1 s (int j)") (auto simp: copyTo_col_shape dest!: Cons.IH)
qed

lemma unnormalisePcaBasis_shape:
  assumes "unnormalisePcaBasis sq B E = Inr U"
  shows "rows U = rows B \<and> cols U = cols B \<and> length (data U) = rows B * cols B"
proof (cases "rows_loop (\<lambda>e. 1 / sq e) E [0..<rows E] (clone E)")
  case (Inl e)
  then show ?thesis using assms by (simp add: unnormalisePcaBasis_def)
next
  case (Inr s)
  then have "cols_loop B s [0..<cols B] (Mat_create (rows B) (cols B)) = Inr U"
    using assms by (simp add: unnormalisePcaBasis_def)
  from cols_loop_shape [OF this] show ?thesis by (simp add: Mat_create_def)
qed

lemma PcaModel_ctor_shapes:
  assumes "PcaModel_ctor sq seeded mean' pcaBasis E triangles = Inr M" "wf_Mat pcaBasis"
  shows "normalisedPcaBasis M = pcaBasis \<and> wf_Mat (unnormalisedPcaBasis M)
       \<and> rows (unnormalisedPcaBasis M) = rows pcaBasis
       \<and> cols (unnormalisedPcaBasis M) = cols pcaBasis"
proof (cases "unnormalisePcaBasis sq pcaBasis E")
  case (Inl e)
  then show ?thesis using assms(1) by (simp add: PcaModel_ctor_def)
next
  case (Inr U)
  from unnormalisePcaBasis_shape [OF this] assms(2) have "wf_Mat U" "rows U = rows pcaBasis"
    "cols U = cols pcaBasis"
    by (simp_all add: wf_Mat_def)
  then show ?thesis using assms(1) Inr by (auto simp: PcaModel_ctor_def)
qed



section \<open>The mean at a vertex and the basis at a vertex\<close>

lemma cint_Inr: "INT_MIN \<le> x \<Longrightarrow> x \<le> INT_MAX \<Longrightarrow> cint x = Inr x"
  by (simp add: cint_def)

lemma getMeanAtPoint_without_overflow:
  fixes M :: "('a::one, 'g) PcaModel"
  assumes wf: "wf_Mat (mean M)" and col: "cols (mean M) = 1"
    and m: "int (rows (mean M)) = 3 * m"
    and v: "0 \<le> v" "3 * v \<le> INT_MAX"
  shows "getMeanAtPoint M v =
     (if int (rows (mean M)) \<le> 3 * v then Inl Out_Of_Range
      else Inr (data (mean M) ! nat (3 * v), data (mean M) ! nat (3 * v + 1),
                data (mean M) ! nat (3 * v + 2), 1))"
proof -
  have len: "int (length (data (mean M))) = 3 * m" and top: "3 * m \<le> INT_MAX"
    using wf col m by (simp_all add: wf_Mat_def)
  have c0: "cint (v * 3) = Inr (3 * v)"
    using v by (simp add: cint_def INT_MIN_def mult.commute)
  show ?thesis
  proof (cases "int (rows (mean M)) \<le> 3 * v")
    case True
    then show ?thesis by (simp add: getMeanAtPoint_def c0)
  next
    case False
    then have lt: "v < m" using m by simp
    then have b: "3 * v + 2 < 3 * m" by simp
    have c1: "cint (3 * v + 1) = Inr (3 * v + 1)" and c2: "cint (3 * v + 2) = Inr (3 * v + 2)"
      using v b top by (simp_all add: cint_def INT_MIN_def)
    have "at1 (mean M) (3 * v) = Inr (data (mean M) ! nat (3 * v))"
      "at1 (mean M) (3 * v + 1) = Inr (data (mean M) ! nat (3 * v + 1))"
      "at1 (mean M) (3 * v + 2) = Inr (data (mean M) ! nat (3 * v + 2))"
      using v b len by (simp_all add: at1_def)
    then show ?thesis using False by (simp add: getMeanAtPoint_def c0 c1 c2)
  qed
qed

text \<open>
  Claim C4. For a model whose mean has \<open>3m\<close> rows and a nonnegative \<open>vertexIndex\<close>,
  \<open>getMeanAtPoint\<close> raises the out-of-range error exactly when
  \<open>vertexIndex * 3 >= getDataDimension()\<close>, and otherwise returns the homogeneous point
  \<open>(mean[3v], mean[3v+1], mean[3v+2], 1)\<close>. \<open>getMeanAtPoint_without_overflow\<close> above is
  this statement for the indices whose triple is an \<open>int\<close>. The function multiplies
  before it compares, so for the other indices it does not get as far as the comparison:
  on the example model (two vertices, data dimension 6) the index 715827883, whose triple
  is far above 6, overflows \<open>vertexIndex *= 3\<close> and no out-of-range error is raised.
\<close>

theorem getMeanAtPoint_overflow:
  "getMeanAtPoint example_model 715827883 = Inl Undefined_Behaviour
   \<and> getDataDimension example_model \<le> 715827883 * 3"
  by (simp add: getMeanAtPoint_def getDataDimension_def example_model_def cint_def
      INT_MAX_def INT_MIN_def)

text \<open>
  Claim C10. The one comparison of \<open>3 * vertexIndex\<close> with the row count of the mean
  covers the three reads at \<open>3 * vertexIndex\<close>, \<open>3 * vertexIndex + 1\<close> and
  \<open>3 * vertexIndex + 2\<close>, the row count being a multiple of 3: when no out-of-range error
  is raised, all three indices are below the row count. Again this holds as long as the
  triple is an \<open>int\<close> (in \<open>getMeanAtPoint_without_overflow\<close> all three reads are inside
  the mean). For the index 1431655767 the product overflows, no out-of-range error is
  raised, and the three indices are not below the six rows of the example mean.
\<close>

theorem unchecked_reads_after_overflow:
  "getMeanAtPoint example_model 1431655767 = Inl Undefined_Behaviour
   \<and> int (rows (mean example_model)) \<le> 3 * 1431655767"
  by (simp add: getMeanAtPoint_def example_model_def cint_def INT_MAX_def INT_MIN_def)

lemma rowRange_block:
  assumes wf: "wf_Mat B" and m: "int (rows B) = 3 * m" and v: "0 \<le> v" "v < m"
  shows "\<exists>blk. seq (cint (v * 3)) (\<lambda>s. seq (cint (s + 3)) (\<lambda>e. rowRange B s e)) = Inr blk
           \<and> rows blk = 3 \<and> cols blk = cols B
           \<and> (\<forall>i<3. \<forall>j<cols blk. at2 blk i j = at2 B (3 * nat v + i) j)"
proof -
  have top: "int (rows B) \<le> INT_MAX" and len: "length (data B) = rows B * cols B"
    using wf by (simp_all add: wf_Mat_def)
  have b: "3 * v + 3 \<le> int (rows B)" using m v by simp
  have c0: "cint (v * 3) = Inr (3 * v)" and c1: "cint (3 * v + 3) = Inr (3 * v + 3)"
    using v b top by (simp_all add: cint_def INT_MIN_def mult.commute)
  let ?blk = "\<lparr>rows = 3, cols = cols B,
               data = take (3 * cols B) (drop (nat (3 * v) * cols B) (data B))\<rparr>"
  have run: "seq (cint (v * 3)) (\<lambda>s. seq (cint (s + 3)) (\<lambda>e. rowRange B s e)) = Inr ?blk"
    using v b by (simp add: c0 c1 rowRange_def)
  have "at2 ?blk i j = at2 B (3 * nat v + i) j" if ij: "i < 3" "j < cols B" for i j
  proof -
    have lt: "i * cols B + j < 3 * cols B" using ij by (rule index_bound)
    have eq: "nat (3 * v) * cols B + (i * cols B + j) = (3 * nat v + i) * cols B + j"
      using v by (simp add: nat_mult_distrib add_mult_distrib)
    have le: "nat (3 * v) * cols B \<le> length (data B)"
    proof -
      have "nat (3 * v) \<le> rows B" using b by simp
      then have "nat (3 * v) * cols B \<le> rows B * cols B" by (rule mult_le_mono1)
      then show ?thesis using len by simp
    qed
    have "at2 ?blk i j = drop (nat (3 * v) * cols B) (data B) ! (i * cols B + j)"
      using lt by (simp add: at2_def)
    also have "\<dots> = data B ! (nat (3 * v) * cols B + (i * cols B + j))"
      using le by (rule nth_drop)
    also have "\<dots> = at2 B (3 * nat v + i) j"
      by (simp only: eq at2_def)
    finally show ?thesis .
  qed
  then show ?thesis using run by (intro exI [of _ ?blk]) simp
qed

text \<open>
  Claim C5. For a valid vertex index \<open>v\<close>, \<open>0 \<le> v < vertexCount\<close>, each of the two
  per-vertex accessors returns a block of three rows and as many columns as the basis has,
  whose row \<open>i\<close> is row \<open>3v + i\<close> of the full basis that the accessor without argument
  returns.
\<close>

theorem per_vertex_basis_is_three_rows:
  assumes "wf_Mat (normalisedPcaBasis M)" "wf_Mat (unnormalisedPcaBasis M)"
    and "rows (unnormalisedPcaBasis M) = rows (normalisedPcaBasis M)"
    and "getDataDimension M = 3 * vertexCount"
    and "0 \<le> v" "v < vertexCount"
  shows "(\<exists>blk. getNormalisedPcaBasis_at M v = Inr blk
            \<and> rows blk = 3 \<and> cols blk = cols (getNormalisedPcaBasis M)
            \<and> (\<forall>i<3. \<forall>j<cols blk.
                  at2 blk i j = at2 (getNormalisedPcaBasis M) (3 * nat v + i) j))
       \<and> (\<exists>blk. getUnnormalisedPcaBasis_at M v = Inr blk
            \<and> rows blk = 3 \<and> cols blk = cols (getUnnormalisedPcaBasis M)
            \<and> (\<forall>i<3. \<forall>j<cols blk.
                  at2 blk i j = at2 (getUnnormalisedPcaBasis M) (3 * nat v + i) j))"
proof -
  have n: "int (rows (normalisedPcaBasis M)) = 3 * vertexCount"
    and u: "int (rows (unnormalisedPcaBasis M)) = 3 * vertexCount"
    using assms(3,4) by (simp_all add: getDataDimension_def)
  from rowRange_block [OF assms(1) n assms(5,6)] rowRange_block [OF assms(2) u assms(5,6)]
  show ?thesis
    unfolding getNormalisedPcaBasis_at_def getUnnormalisedPcaBasis_at_def
    by (simp add: getNormalisedPcaBasis_at_def getUnnormalisedPcaBasis_at_def
        getNormalisedPcaBasis_def getUnnormalisedPcaBasis_def clone_def)
qed

theorem per_vertex_basis_is_three_rows_witness:
  "wf_Mat (normalisedPcaBasis example_model) \<and> wf_Mat (unnormalisedPcaBasis example_model)
   \<and> rows (unnormalisedPcaBasis example_model) = rows (normalisedPcaBasis example_model)
   \<and> getDataDimension example_model = 3 * 2 \<and> (0::int) \<le> 1 \<and> (1::int) < 2
   \<and> (\<exists>blk. getNormalisedPcaBasis_at example_model 1 = Inr blk \<and> rows blk = 3
          \<and> at2 blk 2 0 = at2 (getNormalisedPcaBasis example_model) 5 0)
   \<and> (\<exists>blk. getUnnormalisedPcaBasis_at example_model 1 = Inr blk \<and> rows blk = 3
          \<and> at2 blk 2 0 = at2 (getUnnormalisedPcaBasis example_model) 5 0)"
proof -
  have h: "wf_Mat (normalisedPcaBasis example_model)"
    "wf_Mat (unnormalisedPcaBasis example_model)"
    "rows (unnormalisedPcaBasis example_model) = rows (normalisedPcaBasis example_model)"
    "getDataDimension example_model = 3 * 2" "(0::int) \<le> 1" "(1::int) < 2"
    by (simp_all add: wf_Mat_def example_model_def getDataDimension_def INT_MAX_def)
  have c: "cols (getNormalisedPcaBasis example_model) = 1"
    "cols (getUnnormalisedPcaBasis example_model) = 1"
    by (simp_all add: getNormalisedPcaBasis_def getUnnormalisedPcaBasis_def clone_def
        example_model_def)
  from per_vertex_basis_is_three_rows [OF h]
  obtain n u where n: "getNormalisedPcaBasis_at example_model 1 = Inr n" "rows n = 3"
      "cols n = cols (getNormalisedPcaBasis example_model)"
      "\<forall>i<3. \<forall>j<cols n. at2 n i j = at2 (getNormalisedPcaBasis example_model) (3 * nat 1 + i) j"
    and u: "getUnnormalisedPcaBasis_at example_model 1 = Inr u" "rows u = 3"
      "cols u = cols (getUnnormalisedPcaBasis example_model)"
      "\<forall>i<3. \<forall>j<cols u. at2 u i j = at2 (getUnnormalisedPcaBasis example_model) (3 * nat 1 + i) j"
    by blast
  have "at2 n 2 0 = at2 (getNormalisedPcaBasis example_model) 5 0"
    using n(4) [rule_format, of 2 0] n(3) c by simp
  moreover have "at2 u 2 0 = at2 (getUnnormalisedPcaBasis example_model) 5 0"
    using u(4) [rule_format, of 2 0] u(3) c by simp
  ultimately show ?thesis using h n(1,2) u(1,2) by blast
qed


section \<open>Samples from given coefficients\<close>

lemma col_of_vector: "col (Mat_of_vector xs) 0 = xs"
  by (simp add: col_def Mat_of_vector_def map_nth)

lemma Mat_mul_vector:
  fixes a :: "'a::{zero,plus,times} Mat"
  assumes "cols a = length xs"
  shows "Mat_mul a (Mat_of_vector xs)
         = Inr \<lparr>rows = rows a, cols = 1, data = map (\<lambda>i. dot (row a i) xs) [0..<rows a]\<rparr>"
proof -
  have "col (Mat_of_vector xs) 0 = xs" by (rule col_of_vector)
  then have "concat (map (\<lambda>i. map (\<lambda>j. dot (row a i) (col (Mat_of_vector xs) j)) [0..<1])
                         [0..<rows a])
             = map (\<lambda>i. dot (row a i) xs) [0..<rows a]"
    by (induction "rows a") simp_all
  then show ?thesis using assms by (simp add: Mat_mul_def Mat_of_vector_def)
qed

lemma resize_pads:
  "length xs \<le> n \<Longrightarrow> resize xs n = xs @ replicate (n - length xs) 0"
  by (simp add: resize_def)

lemma drawSample_padded:
  fixes M :: "('a::{zero,plus,times}, 'g) PcaModel"
  assumes "int (length coefficients) \<le> getNumberOfPrincipalComponents M"
  shows "drawSample M coefficients =
     (seq (Mat_mul (normalisedPcaBasis M)
             (Mat_of_vector (coefficients
                @ replicate (nat (getNumberOfPrincipalComponents M) - length coefficients) 0)))
          (Mat_add (mean M)), M)"
proof (cases "int (length coefficients) < getNumberOfPrincipalComponents M")
  case True
  then have "length coefficients \<le> nat (getNumberOfPrincipalComponents M)" by simp
  then show ?thesis using True by (simp add: drawSample_def Let_def resize_pads)
next
  case False
  then have "nat (getNumberOfPrincipalComponents M) - length coefficients = 0"
    using assms by simp
  then show ?thesis using False by (simp add: drawSample_def Let_def)
qed

lemma drawSample_elements:
  fixes M :: "('a::{zero,plus,times}, 'g) PcaModel"
  assumes len: "int (length coefficients) \<le> getNumberOfPrincipalComponents M"
    and wf: "wf_Mat (mean M)" and shape: "rows (mean M) = rows (normalisedPcaBasis M)"
      "cols (mean M) = 1"
  defines "alphas \<equiv> coefficients
             @ replicate (nat (getNumberOfPrincipalComponents M) - length coefficients) 0"
  shows "\<exists>R. fst (drawSample M coefficients) = Inr R \<and> rows R = rows (mean M) \<and> cols R = 1
           \<and> length (data R) = rows (mean M)
           \<and> (\<forall>i<rows (mean M). data R ! i
                 = data (mean M) ! i + dot (row (normalisedPcaBasis M) i) alphas)"
proof -
  have n: "cols (normalisedPcaBasis M) = length alphas"
    using len by (simp add: alphas_def getNumberOfPrincipalComponents_def)
  have l: "length (data (mean M)) = rows (mean M)"
    using wf shape(2) by (simp add: wf_Mat_def)
  let ?R = "\<lparr>rows = rows (mean M), cols = cols (mean M),
             data = map2 (+) (data (mean M))
                     (map (\<lambda>i. dot (row (normalisedPcaBasis M) i) alphas)
                        [0..<rows (normalisedPcaBasis M)])\<rparr>"
  have "fst (drawSample M coefficients)
        = seq (Mat_mul (normalisedPcaBasis M) (Mat_of_vector alphas)) (Mat_add (mean M))"
    unfolding alphas_def by (simp add: drawSample_padded [OF len])
  also have "\<dots> = Inr ?R"
    using shape by (simp add: Mat_mul_vector [OF n] Mat_add_def)
  finally have "fst (drawSample M coefficients) = Inr ?R" .
  moreover have "data ?R ! i = data (mean M) ! i + dot (row (normalisedPcaBasis M) i) alphas"
    if "i < rows (mean M)" for i
    using that l shape(1) by simp
  ultimately show ?thesis using l shape by (intro exI [of _ ?R]) simp
qed

text \<open>
  Claim C2. For at most \<open>n\<close> coefficients, \<open>n\<close> the number of principal components,
  \<open>drawSample\<close> returns \<open>mean + normalisedPcaBasis * alphas\<close>, where \<open>alphas\<close> is the
  coefficient vector filled up with zeros to length \<open>n\<close>: element \<open>i\<close> of the result is
  element \<open>i\<close> of the mean plus the product of row \<open>i\<close> of the basis with \<open>alphas\<close>. On a
  model with three components, \<open>drawSample([a0])\<close> is \<open>drawSample([a0, 0, 0])\<close>.
\<close>

theorem drawSample_pads_with_zeros:
  fixes M :: "('a::{zero,plus,times}, 'g) PcaModel"
  assumes "int (length coefficients) \<le> getNumberOfPrincipalComponents M"
    and "wf_Mat (mean M)" "rows (mean M) = rows (normalisedPcaBasis M)" "cols (mean M) = 1"
  shows "(\<exists>R. fst (drawSample M coefficients) = Inr R \<and> rows R = rows (mean M) \<and> cols R = 1
           \<and> length (data R) = rows (mean M)
           \<and> (\<forall>i<rows (mean M). data R ! i
                 = data (mean M) ! i
                   + dot (row (normalisedPcaBasis M) i)
                       (coefficients @ replicate
                          (nat (getNumberOfPrincipalComponents M) - length coefficients) 0)))
       \<and> (getNumberOfPrincipalComponents M = 3
            \<longrightarrow> drawSample M [a0] = drawSample M [a0, 0, 0])"
proof
  show "\<exists>R. fst (drawSample M coefficients) = Inr R \<and> rows R = rows (mean M) \<and> cols R = 1
           \<and> length (data R) = rows (mean M)
           \<and> (\<forall>i<rows (mean M). data R ! i
                 = data (mean M) ! i
                   + dot (row (normalisedPcaBasis M) i)
                       (coefficients @ replicate
                          (nat (getNumberOfPrincipalComponents M) - length coefficients) 0))"
    using assms by (rule drawSample_elements)
  show "getNumberOfPrincipalComponents M = 3 \<longrightarrow> drawSample M [a0] = drawSample M [a0, 0, 0]"
    by (simp add: drawSample_def Let_def resize_def numeral_3_eq_3)
qed

theorem drawSample_pads_with_zeros_witness:
  "int (length [5 :: real]) \<le> getNumberOfPrincipalComponents three_component_model
   \<and> wf_Mat (mean three_component_model)
   \<and> rows (mean three_component_model) = rows (normalisedPcaBasis three_component_model)
   \<and> cols (mean three_component_model) = 1
   \<and> getNumberOfPrincipalComponents three_component_model = 3
   \<and> (\<exists>R. fst (drawSample three_component_model [5]) = Inr R \<and> rows R = 3 \<and> cols R = 1
          \<and> data R ! 0 = 1 + dot [1, 2, 0] [5, 0, 0])
   \<and> drawSample three_component_model [5] = drawSample three_component_model [5, 0, 0]"
proof -
  have h: "int (length [5 :: real]) \<le> getNumberOfPrincipalComponents three_component_model"
    "wf_Mat (mean three_component_model)"
    "rows (mean three_component_model) = rows (normalisedPcaBasis three_component_model)"
    "cols (mean three_component_model) = 1"
    and n: "getNumberOfPrincipalComponents three_component_model = 3"
    by (simp_all add: three_component_model_def getNumberOfPrincipalComponents_def wf_Mat_def
        INT_MAX_def)
  have v: "rows (mean three_component_model) = 3" "data (mean three_component_model) ! 0 = 1"
    "row (normalisedPcaBasis three_component_model) 0 = [1, 2, 0]"
    by (simp_all add: three_component_model_def row_def)
  from drawSample_pads_with_zeros [OF h, of 5] n
  obtain R where R: "fst (drawSample three_component_model [5]) = Inr R"
      "rows R = rows (mean three_component_model)" "cols R = 1"
      "\<forall>i<rows (mean three_component_model). data R ! i
         = data (mean three_component_model) ! i
           + dot (row (normalisedPcaBasis three_component_model) i)
               ([5] @ replicate (nat (getNumberOfPrincipalComponents three_component_model)
                                 - length [5 :: real]) 0)"
    and p: "drawSample three_component_model [5] = drawSample three_component_model [5, 0, 0]"
    by blast
  have "data R ! 0 = 1 + dot [1, 2, 0] [5, 0, 0]"
    using R(4) [rule_format, of 0] by (simp add: v n numeral_2_eq_2)
  then show ?thesis using h n R(1,2,3) p v(1) by auto
qed

lemma foldl_zeros:
  fixes z :: "'a::{zero,plus}"
  assumes "z + 0 = z"
  shows "foldl (+) z (replicate n 0) = z"
  using assms by (induction n) simp_all

lemma dot_zeros:
  fixes xs :: "'a::{zero,plus,times} list"
  assumes "\<forall>x\<in>set xs. x * 0 = 0" "(0::'a) + 0 = 0"
  shows "dot xs (replicate n 0) = 0"
proof -
  have "map2 (*) xs (replicate n 0) = map (\<lambda>x. x * 0) (take n xs)"
    by (simp add: zip_replicate2 comp_def)
  also have "\<dots> = map (\<lambda>x. 0) (take n xs)"
    using assms(1) by (intro map_cong refl) (auto dest: in_set_takeD)
  also have "\<dots> = replicate (length (take n xs)) 0"
    by (rule map_replicate_const)
  finally show ?thesis using assms(2) by (simp add: dot_def foldl_zeros)
qed

lemma add_zeros:
  fixes xs :: "'a::{zero,plus} list"
  assumes "\<forall>x\<in>set xs. x + 0 = x"
  shows "map2 (+) xs (replicate (length xs) 0) = xs"
  using assms by (induction xs) simp_all

text \<open>
  Claim C6. With no coefficients, or with \<open>k \<le> n\<close> coefficients that are all zero,
  \<open>drawSample\<close> returns the mean. Of the arithmetic this needs that a basis entry times
  zero is zero and that a mean entry plus zero is that entry, as it is for every finite
  \<open>float\<close>.
\<close>

theorem drawSample_of_zeros_is_mean:
  fixes M :: "('a::{zero,plus,times}, 'g) PcaModel"
  assumes "int k \<le> getNumberOfPrincipalComponents M"
    and "wf_Mat (mean M)" "rows (mean M) = rows (normalisedPcaBasis M)" "cols (mean M) = 1"
    and "\<forall>b\<in>set (data (normalisedPcaBasis M)). b * 0 = 0" "(0::'a) + 0 = 0"
    and "\<forall>x\<in>set (data (mean M)). x + 0 = x"
  shows "fst (drawSample M []) = Inr (mean M)
       \<and> fst (drawSample M (replicate k 0)) = Inr (mean M)"
proof -
  have l: "length (data (mean M)) = rows (mean M)"
    using assms(2,4) by (simp add: wf_Mat_def)
  have zero: "fst (drawSample M (replicate j 0)) = Inr (mean M)"
    if j: "int j \<le> getNumberOfPrincipalComponents M" for j
  proof -
    let ?n = "nat (getNumberOfPrincipalComponents M)"
    have pad: "replicate j 0 @ replicate (?n - length (replicate j (0::'a))) 0
               = replicate ?n (0::'a)"
      using j by (simp add: replicate_add [symmetric])
    have n: "cols (normalisedPcaBasis M) = length (replicate ?n (0::'a))"
      by (simp add: getNumberOfPrincipalComponents_def)
    have "dot (row (normalisedPcaBasis M) i) (replicate ?n 0) = 0" for i
    proof (rule dot_zeros)
      show "\<forall>x\<in>set (row (normalisedPcaBasis M) i). x * 0 = 0"
        using assms(5) by (auto simp: row_def dest!: in_set_takeD in_set_dropD)
    qed (rule assms(6))
    then have "map (\<lambda>i. dot (row (normalisedPcaBasis M) i) (replicate ?n 0))
                 [0..<rows (normalisedPcaBasis M)]
               = replicate (length (data (mean M))) 0"
      using l assms(3) by (simp add: map_replicate_const)
    then have prod: "Mat_mul (normalisedPcaBasis M) (Mat_of_vector (replicate ?n 0))
               = Inr \<lparr>rows = rows (normalisedPcaBasis M), cols = 1,
                      data = replicate (length (data (mean M))) 0\<rparr>"
      by (simp add: Mat_mul_vector [OF n])
    have "fst (drawSample M (replicate j 0))
          = seq (Mat_mul (normalisedPcaBasis M) (Mat_of_vector (replicate ?n 0)))
              (Mat_add (mean M))"
    proof -
      have "int (length (replicate j (0::'a))) \<le> getNumberOfPrincipalComponents M"
        using j by simp
      from drawSample_padded [OF this] pad show ?thesis by simp
    qed
    also have "\<dots> = Inr \<lparr>rows = rows (mean M), cols = cols (mean M), data = data (mean M)\<rparr>"
      using assms(3,4) add_zeros [OF assms(7)] by (simp add: prod Mat_add_def)
    finally show ?thesis by simp
  qed
  from zero [of 0] zero [OF assms(1)] show ?thesis
    by (simp add: getNumberOfPrincipalComponents_def)
qed

theorem drawSample_of_zeros_is_mean_witness:
  "int 2 \<le> getNumberOfPrincipalComponents three_component_model
   \<and> wf_Mat (mean three_component_model)
   \<and> rows (mean three_component_model) = rows (normalisedPcaBasis three_component_model)
   \<and> cols (mean three_component_model) = 1
   \<and> fst (drawSample three_component_model []) = Inr (mean three_component_model)
   \<and> fst (drawSample three_component_model (replicate 2 0)) = Inr (mean three_component_model)"
proof -
  have h: "int 2 \<le> getNumberOfPrincipalComponents three_component_model"
    "wf_Mat (mean three_component_model)"
    "rows (mean three_component_model) = rows (normalisedPcaBasis three_component_model)"
    "cols (mean three_component_model) = 1"
    by (simp_all add: three_component_model_def getNumberOfPrincipalComponents_def wf_Mat_def
        INT_MAX_def)
  have a: "\<forall>b\<in>set (data (normalisedPcaBasis three_component_model)). b * 0 = 0"
    "(0::real) + 0 = 0" "\<forall>x\<in>set (data (mean three_component_model)). x + 0 = x"
    by simp_all
  from h drawSample_of_zeros_is_mean [OF h a] show ?thesis by blast
qed

text \<open>
  Claim C7. The coefficient-based \<open>drawSample\<close> is a function of the stored mean, the
  stored normalised basis and the coefficients: it leaves the model, and so the random
  engine, as it was, its result does not depend on the state of the engine, and two models
  with the same mean and the same normalised basis give the same result for the same
  coefficients.
\<close>

theorem drawSample_is_pure:
  "snd (drawSample M coefficients) = M
   \<and> fst (drawSample (M\<lparr>engine := g\<rparr>) coefficients) = fst (drawSample M coefficients)
   \<and> (mean M = mean M' \<and> normalisedPcaBasis M = normalisedPcaBasis M'
        \<longrightarrow> fst (drawSample M coefficients) = fst (drawSample M' coefficients))"
  by (simp add: drawSample_def getNumberOfPrincipalComponents_def Let_def)

theorem drawSample_is_pure_witness:
  "mean example_model = mean (example_model\<lparr>engine := 7, triangleList := [(0, 1, 0)]\<rparr>)
   \<and> normalisedPcaBasis example_model
       = normalisedPcaBasis (example_model\<lparr>engine := 7, triangleList := [(0, 1, 0)]\<rparr>)
   \<and> snd (drawSample example_model [2]) = example_model
   \<and> fst (drawSample example_model [2])
       = fst (drawSample (example_model\<lparr>engine := 7, triangleList := [(0, 1, 0)]\<rparr>) [2])"
  using drawSample_is_pure [of example_model "[2]" 7
      "example_model\<lparr>engine := 7, triangleList := [(0, 1, 0)]\<rparr>"]
  by simp

text \<open>
  Claim C8, as the code has it. A coefficient vector longer than the number of principal
  components is not cut: \<open>alphas\<close> gets more rows than the basis has columns, the product
  \<open>normalisedPcaBasis * alphas\<close> fails the shape assertion of OpenCV, and the call ends
  with a \<open>cv::Exception\<close> instead of a vector. The model is left as it was.
\<close>

theorem drawSample_too_many_coefficients:
  assumes "getNumberOfPrincipalComponents M < int (length coefficients)"
  shows "drawSample M coefficients = (Inl Cv_Exception, M)"
  using assms
  by (simp add: drawSample_def getNumberOfPrincipalComponents_def Let_def Mat_mul_def
      Mat_of_vector_def)

theorem drawSample_too_many_coefficients_witness:
  "getNumberOfPrincipalComponents example_model < int (length [2, 0 :: real])
   \<and> drawSample example_model [2, 0] = (Inl Cv_Exception, example_model)"
proof -
  have h: "getNumberOfPrincipalComponents example_model < int (length [2, 0 :: real])"
    by (simp add: getNumberOfPrincipalComponents_def example_model_def)
  from h drawSample_too_many_coefficients [OF h] show ?thesis by simp
qed

text \<open>
  Claim C8 as stated (a longer vector makes \<open>drawSample\<close> return some vector) fails on
  the example model, which has one principal component, for two coefficients.
\<close>

theorem drawSample_raises_on_longer_input:
  "fst (drawSample example_model [2, 0]) = Inl Cv_Exception"
  by (simp add: drawSample_def getNumberOfPrincipalComponents_def Let_def Mat_mul_def
      Mat_of_vector_def example_model_def)



section \<open>The two bases over the lifetime of a model\<close>

lemma drawSample_keeps_model: "snd (drawSample M coefficients) = M"
  by (simp add: drawSample_def Let_def)

lemma drawSample_sigma_keeps_all_but_engine:
  "\<exists>g. snd (drawSample_sigma normal M sigma) = M\<lparr>engine := g\<rparr>"
proof -
  obtain alphas g where d:
    "draw_alphas (normal sigma) (nat (getNumberOfPrincipalComponents M)) (engine M) = (alphas, g)"
    by (cases "draw_alphas (normal sigma) (nat (getNumberOfPrincipalComponents M)) (engine M)")
  have "snd (drawSample_sigma normal M sigma) = M\<lparr>engine := g\<rparr>"
    by (simp add: drawSample_sigma_def d drawSample_keeps_model)
  then show ?thesis ..
qed

lemma invoke_keeps_all_but_engine:
  "\<exists>g. snd (invoke normal c M) = M\<lparr>engine := g\<rparr>"
proof (cases c)
  case (Call_drawSample_sigma sigma)
  from drawSample_sigma_keeps_all_but_engine [of normal M sigma]
  obtain g where "snd (drawSample_sigma normal M sigma) = M\<lparr>engine := g\<rparr>" ..
  then have "snd (invoke normal c M) = M\<lparr>engine := g\<rparr>"
    by (cases "drawSample_sigma normal M sigma") (simp add: Call_drawSample_sigma)
  then show ?thesis ..
next
  case (Call_drawSample coefficients)
  have "snd (invoke normal c M) = M\<lparr>engine := engine M\<rparr>"
    using drawSample_keeps_model [of M coefficients]
    by (cases "drawSample M coefficients") (simp add: Call_drawSample)
  then show ?thesis ..
qed (auto intro: exI [of _ "engine M"])

lemma run_keeps_all_but_engine:
  "run normal cs M = Some M' \<Longrightarrow> \<exists>g. M' = M\<lparr>engine := g\<rparr>"
proof (induction cs arbitrary: M)
  case Nil
  then have "M' = M\<lparr>engine := engine M\<rparr>" by simp
  then show ?case ..
next
  case (Cons c cs)
  obtain r M1 where i: "invoke normal c M = (r, M1)" by (cases "invoke normal c M")
  from invoke_keeps_all_but_engine [of normal c M] i
  obtain g1 where M1: "M1 = M\<lparr>engine := g1\<rparr>" by auto
  from Cons.prems i have "run normal cs M1 = Some M'"
    by (simp split: if_splits)
  from Cons.IH [OF this] obtain g where "M' = M1\<lparr>engine := g\<rparr>" ..
  then have "M' = M\<lparr>engine := g\<rparr>" using M1 by simp
  then show ?case ..
qed

lemma basis_consistent_engine [simp]:
  "basis_consistent sq (M\<lparr>engine := g\<rparr>) = basis_consistent sq M"
  by (simp add: basis_consistent_def)

text \<open>
  Claim C3. A model constructed from a mean, a normalised basis, an \<open>n\<times>1\<close> eigenvalue
  vector and a triangle list stores the basis it was given and, as its unnormalised basis,
  that basis with column \<open>j\<close> scaled by \<open>1 / sqrt(eigenvalue j)\<close>. No public member
  function changes either basis: after any sequence of calls the two bases are the stored
  ones and stand in the same relation.
\<close>

theorem bases_consistent_for_lifetime:
  fixes pcaBasis :: "'a::{zero,one,plus,times,inverse} Mat"
  assumes "wf_Mat pcaBasis" "wf_Mat E" "rows E = cols pcaBasis" "cols E = 1"
  shows "\<exists>M. PcaModel_ctor sq seeded mean' pcaBasis E triangles = Inr M
           \<and> normalisedPcaBasis M = pcaBasis \<and> eigenvalues M = E
           \<and> basis_consistent sq M
           \<and> (\<forall>cs M'. run normal cs M = Some M' \<longrightarrow>
                  normalisedPcaBasis M' = normalisedPcaBasis M
                \<and> unnormalisedPcaBasis M' = unnormalisedPcaBasis M
                \<and> basis_consistent sq M')"
proof -
  have B: "length (data pcaBasis) = rows pcaBasis * cols pcaBasis"
    using assms(1) by (simp add: wf_Mat_def)
  have E: "rows E \<le> length (data E)" "cols pcaBasis \<le> length (data E)"
    using assms(2,3,4) by (simp_all add: wf_Mat_def)
  from unnormalisePcaBasis_at2 [OF B E, of sq] assms(3)
  obtain U where U: "unnormalisePcaBasis sq pcaBasis E = Inr U" "rows U = rows pcaBasis"
      "cols U = cols pcaBasis"
      "\<forall>i<rows pcaBasis. \<forall>j<cols pcaBasis. at2 U i j = at2 pcaBasis i j * (1 / sq (data E ! j))"
    by auto
  let ?M = "\<lparr>engine = seeded, mean = mean', normalisedPcaBasis = pcaBasis,
             unnormalisedPcaBasis = U, eigenvalues = E, triangleList = triangles\<rparr>"
  have ctor: "PcaModel_ctor sq seeded mean' pcaBasis E triangles = Inr ?M"
    by (simp add: PcaModel_ctor_def U(1))
  have inv: "basis_consistent sq ?M"
    using U(2,3,4) by (simp add: basis_consistent_def)
  have "normalisedPcaBasis M' = normalisedPcaBasis ?M
      \<and> unnormalisedPcaBasis M' = unnormalisedPcaBasis ?M \<and> basis_consistent sq M'"
    if "run normal cs ?M = Some M'" for cs M'
  proof -
    from run_keeps_all_but_engine [OF that] obtain g where "M' = ?M\<lparr>engine := g\<rparr>" ..
    then show ?thesis using inv by (simp add: basis_consistent_def)
  qed
  then show ?thesis using ctor inv by (intro exI [of _ ?M]) simp
qed

theorem bases_consistent_for_lifetime_witness:
  "wf_Mat (normalisedPcaBasis example_model) \<and> wf_Mat (eigenvalues example_model)
   \<and> rows (eigenvalues example_model) = cols (normalisedPcaBasis example_model)
   \<and> cols (eigenvalues example_model) = 1
   \<and> PcaModel_ctor sqrt 0 (mean example_model) (normalisedPcaBasis example_model)
        (eigenvalues example_model) [] = Inr example_model
   \<and> run fixed_draw [Call_drawSample_sigma 1, Call_getMeanAtPoint 5, Call_drawSample [2]]
        example_model = Some (example_model\<lparr>engine := 1\<rparr>)
   \<and> basis_consistent sqrt example_model
   \<and> basis_consistent sqrt (example_model\<lparr>engine := 1\<rparr>)
   \<and> unnormalisedPcaBasis (example_model\<lparr>engine := 1\<rparr>) = unnormalisedPcaBasis example_model"
proof -
  have h: "wf_Mat (normalisedPcaBasis example_model)" "wf_Mat (eigenvalues example_model)"
    "rows (eigenvalues example_model) = cols (normalisedPcaBasis example_model)"
    "cols (eigenvalues example_model) = 1"
    by (simp_all add: wf_Mat_def example_model_def INT_MAX_def)
  have ctor: "PcaModel_ctor sqrt 0 (mean example_model) (normalisedPcaBasis example_model)
        (eigenvalues example_model) [] = Inr example_model"
    by (simp add: PcaModel_ctor_def example_model_def unnormalisePcaBasis_def at1_def
        clone_def Mat_create_def copyTo_col_def mul_def col_def upt_rec [of _ "numeral _"])
  have r: "run fixed_draw [Call_drawSample_sigma 1, Call_getMeanAtPoint 5, Call_drawSample [2]]
        example_model = Some (example_model\<lparr>engine := 1\<rparr>)"
    by (simp add: drawSample_sigma_def drawSample_def getNumberOfPrincipalComponents_def
        example_model_def fixed_draw_def returning_def Mat_mul_def Mat_add_def
        Mat_of_vector_def getMeanAtPoint_def cint_def INT_MAX_def INT_MIN_def)
  from bases_consistent_for_lifetime [OF h, of sqrt 0 "mean example_model" "[]" fixed_draw]
  obtain M where M: "PcaModel_ctor sqrt 0 (mean example_model) (normalisedPcaBasis example_model)
        (eigenvalues example_model) [] = Inr M" "basis_consistent sqrt M"
      "\<forall>cs M'. run fixed_draw cs M = Some M' \<longrightarrow>
                  normalisedPcaBasis M' = normalisedPcaBasis M
                \<and> unnormalisedPcaBasis M' = unnormalisedPcaBasis M
                \<and> basis_consistent sqrt M'"
    by blast
  from M(1) ctor have eq: "M = example_model" by simp
  from M(3) r eq have "unnormalisedPcaBasis (example_model\<lparr>engine := 1\<rparr>)
                         = unnormalisedPcaBasis example_model
                       \<and> basis_consistent sqrt (example_model\<lparr>engine := 1\<rparr>)"
    by blast
  then show ?thesis using h ctor r M(2) eq by blast
qed

end
